theory Spec2Isabelle
  imports Main "HOL-Library.Word"
begin

unbundle bit_operations_syntax

section \<open>The C types of the wrapper\<close>

text \<open>
  \<^verbatim>\<open>Wrapper.h\<close> is C++/CLI (\<^verbatim>\<open>public ref class\<close>): \<^verbatim>\<open>int\<close> and \<^verbatim>\<open>unsigned int\<close> have
  32 bits and \<^verbatim>\<open>long long\<close> has 64. Signed values are words read with \<open>sint\<close>.
  \<^verbatim>\<open>time_t\<close> is declared by \<^verbatim>\<open><time.h>\<close>, not by the wrapper: it is the type parameter
  \<open>'t\<close> below, a signed integer type of \<open>LENGTH('t)\<close> bits.
\<close>

type_synonym c_int = "32 word"
type_synonym c_uint = "32 word"
type_synonym c_llong = "64 word"

definition INT_MAX :: int where
  "INT_MAX = 2147483647"

section \<open>The platform the wrapper calls\<close>

text \<open>
  \<^verbatim>\<open>srand\<close>, \<^verbatim>\<open>rand\<close> and \<^verbatim>\<open>RAND_MAX\<close> come from \<^verbatim>\<open><stdlib.h>\<close>. They are parameters
  of the model: \<open>srand\<close> and \<open>rand\<close> act on a generator state of some type \<open>'g\<close>,
  \<open>RAND_MAX\<close> is the value of the macro's integer constant expression.
\<close>

record 'g platform =
  srand :: "c_uint \<Rightarrow> 'g \<Rightarrow> 'g"
  rand :: "'g \<Rightarrow> c_int \<times> 'g"
  RAND_MAX :: int

text \<open>
  The state of the process as the five operations see it: \<open>now\<close> is the value a call
  \<^verbatim>\<open>time(0)\<close> returns at this moment, \<open>gen\<close> is the process-wide generator state.
\<close>

record (overloaded) ('t, 'g) world =
  now :: "'t word"
  gen :: 'g

section \<open>The five operations of \<^verbatim>\<open>Wrapper\<close>\<close>

text \<open>
  Each operation takes the world and returns its result with the world after the call.
  \<^verbatim>\<open>return time(0);\<close> converts the \<^verbatim>\<open>time_t\<close> to the declared return type: a signed
  conversion (\<open>scast\<close>), which extends the sign when the result is wider and keeps the low
  bits when it is narrower.
\<close>

definition Time :: "('t::len, 'g) world \<Rightarrow> c_llong \<times> ('t, 'g) world" where
  "Time w = (scast (now w), w)"

definition TimeCast :: "('t::len, 'g) world \<Rightarrow> c_int \<times> ('t, 'g) world" where
  "TimeCast w = (scast (now w), w)"

definition SRand :: "'g platform \<Rightarrow> c_uint \<Rightarrow> ('t::len, 'g) world \<Rightarrow> unit \<times> ('t, 'g) world" where
  "SRand P s w = ((), w\<lparr>gen := srand P s (gen w)\<rparr>)"

definition Rand :: "'g platform \<Rightarrow> ('t::len, 'g) world \<Rightarrow> c_int \<times> ('t, 'g) world" where
  "Rand P w = (let (v, g') = rand P (gen w) in (v, w\<lparr>gen := g'\<rparr>))"

definition RandMax :: "'g platform \<Rightarrow> ('t::len, 'g) world \<Rightarrow> c_int \<times> ('t, 'g) world" where
  "RandMax P w = (word_of_int (RAND_MAX P), w)"

text \<open>\<open>draws P n w\<close>: \<open>n\<close> calls of \<^verbatim>\<open>Rand()\<close> in a row, with the values returned in call order.\<close>

fun draws :: "'g platform \<Rightarrow> nat \<Rightarrow> ('t::len, 'g) world \<Rightarrow> c_int list \<times> ('t, 'g) world" where
  "draws P 0 w = ([], w)"
| "draws P (Suc n) w =
     (let (v, w') = Rand P w; (vs, w'') = draws P n w' in (v # vs, w''))"

text \<open>
  The value of an integer \<open>x\<close> reduced modulo \<open>2 ^ 32\<close> and read as a signed 32-bit
  integer.
\<close>

definition wrap_int32 :: "int \<Rightarrow> int" where
  "wrap_int32 x = (let m = x mod 2 ^ 32 in if m < 2 ^ 31 then m else m - 2 ^ 32)"

section \<open>Sequences of calls\<close>

text \<open>
  A caller issues the five operations in some order, and the platform clock may change
  between two calls. \<open>ClockSet t\<close> is such a change: from then on \<^verbatim>\<open>time(0)\<close> returns \<open>t\<close>.
\<close>

datatype call = CallTime | CallTimeCast | CallSRand c_uint | CallRand | CallRandMax

datatype result = RetLong c_llong | RetInt c_int | RetVoid

datatype 'c event = Call call | ClockSet 'c

fun exec :: "'g platform \<Rightarrow> call \<Rightarrow> ('t::len, 'g) world \<Rightarrow> result \<times> ('t, 'g) world" where
  "exec P CallTime w = (let (r, w') = Time w in (RetLong r, w'))"
| "exec P CallTimeCast w = (let (r, w') = TimeCast w in (RetInt r, w'))"
| "exec P (CallSRand s) w = (let (u, w') = SRand P s w in (RetVoid, w'))"
| "exec P CallRand w = (let (r, w') = Rand P w in (RetInt r, w'))"
| "exec P CallRandMax w = (let (r, w') = RandMax P w in (RetInt r, w'))"

text \<open>\<open>run\<close> performs the events in order and logs every call with its result.\<close>

fun run :: "'g platform \<Rightarrow> 't word event list \<Rightarrow> ('t::len, 'g) world
    \<Rightarrow> (call \<times> result) list \<times> ('t, 'g) world" where
  "run P [] w = ([], w)"
| "run P (Call c # es) w =
     (let (r, w') = exec P c w; (log, w'') = run P es w' in ((c, r) # log, w''))"
| "run P (ClockSet t # es) w = run P es (w\<lparr>now := t\<rparr>)"

text \<open>The values the calls of \<^verbatim>\<open>Rand()\<close>, and of \<^verbatim>\<open>Time()\<close>, returned, in call order.\<close>

fun rand_values :: "(call \<times> result) list \<Rightarrow> c_int list" where
  "rand_values [] = []"
| "rand_values ((CallRand, RetInt v) # l) = v # rand_values l"
| "rand_values (x # l) = rand_values l"

fun time_values :: "(call \<times> result) list \<Rightarrow> c_llong list" where
  "time_values [] = []"
| "time_values ((CallTime, RetLong v) # l) = v # time_values l"
| "time_values (x # l) = time_values l"

fun is_Rand :: "'c event \<Rightarrow> bool" where
  "is_Rand (Call CallRand) = True"
| "is_Rand e = False"

fun is_SRand :: "'c event \<Rightarrow> bool" where
  "is_SRand (Call (CallSRand s)) = True"
| "is_SRand e = False"

text \<open>
  The clock is not set backwards along a sequence of events that starts with the clock
  at \<open>c\<close>: every change moves it to a value that is not smaller, as signed numbers.
\<close>

fun clock_forward :: "'t::len word \<Rightarrow> 't word event list \<Rightarrow> bool" where
  "clock_forward c [] = True"
| "clock_forward c (Call k # es) = clock_forward c es"
| "clock_forward c (ClockSet t # es) = (sint c \<le> sint t \<and> clock_forward t es)"

section \<open>What the platform promises\<close>

text \<open>
  Modelled from the spec: the function \<^verbatim>\<open>srand\<close> of \<^verbatim>\<open><stdlib.h>\<close>, which the wrapper calls
  and does not define. The spec has seeding set the generator state so that the draws
  after it are functions of the seed and the call order: the state after \<^verbatim>\<open>srand(s)\<close>
  does not depend on the state before it.
\<close>

definition srand_reseeds :: "'g platform \<Rightarrow> bool" where
  "srand_reseeds P \<longleftrightarrow> (\<forall>s g g'. srand P s g = srand P s g')"

text \<open>
  Modelled from the spec: the function \<^verbatim>\<open>rand\<close> and the macro \<^verbatim>\<open>RAND_MAX\<close> of
  \<^verbatim>\<open><stdlib.h>\<close>, which the wrapper uses and does not define. The spec gives the result
  of a draw as a signed integer in \<open>[0, randomMax]\<close> and \<open>randomMax\<close> as the inclusive
  upper bound that a draw can produce: in every generator state the result of \<^verbatim>\<open>rand\<close>
  lies between 0 and \<^verbatim>\<open>RAND_MAX\<close>, and in some state it is \<^verbatim>\<open>RAND_MAX\<close>.
\<close>

definition rand_in_range :: "'g platform \<Rightarrow> bool" where
  "rand_in_range P \<longleftrightarrow>
     (\<forall>g. 0 \<le> sint (fst (rand P g)) \<and> sint (fst (rand P g)) \<le> RAND_MAX P)
     \<and> (\<exists>g. sint (fst (rand P g)) = RAND_MAX P)"

text \<open>
  A platform to instantiate the parameters at: the linear congruential generator that
  C runtimes have long shipped as \<^verbatim>\<open>rand\<close>, with a 32-bit state, results of 15 bits and
  \<^verbatim>\<open>RAND_MAX\<close> \<open>= 0x7fff\<close>.
\<close>

definition lcg_srand :: "c_uint \<Rightarrow> 32 word \<Rightarrow> 32 word" where
  "lcg_srand s g = s"

definition lcg_rand :: "32 word \<Rightarrow> c_int \<times> 32 word" where
  "lcg_rand g = (let g' = g * 214013 + 2531011 in (drop_bit 16 g' AND 0x7FFF, g'))"

definition lcg :: "32 word platform" where
  "lcg = \<lparr>srand = lcg_srand, rand = lcg_rand, RAND_MAX = 32767\<rparr>"




section \<open>Narrow and wide time\<close>

lemma wrap_int32_signed_take_bit: "wrap_int32 x = signed_take_bit 31 x"
proof -
  have "signed_take_bit 31 x = take_bit 32 x - 2 ^ 32 * of_bool (bit x 31)"
    using signed_take_bit_eq_take_bit_minus [of 31 x] by simp
  moreover have "bit x 31 \<longleftrightarrow> 2 ^ 31 \<le> take_bit 32 x"
    using take_bit_Suc_from_most [of 31 x] take_bit_int_less_exp [of 31 x]
      take_bit_nonnegative [of 31 x]
    by (auto simp: of_bool_def split: if_splits)
  ultimately show ?thesis
    by (simp add: wrap_int32_def Let_def take_bit_eq_mod)
qed

lemma scast_llong_int: "(scast (scast x :: c_llong) :: c_int) = scast (x :: 't::len word)"
  by (rule bit_word_eqI) (auto simp: bit_word_scast_iff)

text \<open>
  C2. For one reading of the clock, and for a \<^verbatim>\<open>TimeCast()\<close> that follows a \<^verbatim>\<open>Time()\<close> with
  the clock unchanged between them, the result of \<^verbatim>\<open>TimeCast()\<close> is the result of \<^verbatim>\<open>Time()\<close>
  reduced modulo \<open>2 ^ 32\<close> and read as a signed 32-bit integer.
\<close>

theorem TimeCast_is_truncated_Time:
  fixes w :: "('t::len, 'g) world"
  shows "sint (fst (TimeCast w)) = wrap_int32 (sint (fst (Time w)))
       \<and> sint (fst (TimeCast (snd (Time w)))) = wrap_int32 (sint (fst (Time w)))
       \<and> fst (TimeCast w) = ucast (fst (Time w))"
proof -
  have a: "fst (TimeCast w) = scast (fst (Time w))"
    by (simp add: TimeCast_def Time_def scast_llong_int)
  have b: "sint (scast (fst (Time w)) :: c_int) = wrap_int32 (sint (fst (Time w)))"
    by (simp add: signed_scast_eq wrap_int32_signed_take_bit)
  have c: "(scast (fst (Time w)) :: c_int) = ucast (fst (Time w))"
    by (rule bit_word_eqI) (auto simp: bit_word_scast_iff bit_word_ucast_iff)
  have d: "snd (Time w) = w"
    by (simp add: Time_def)
  show ?thesis
    using a b c d by simp
qed

section \<open>The time is the reading of the clock\<close>

lemma sint_scast_llong:
  fixes x :: "'t::len word"
  assumes "LENGTH('t) \<le> 64"
  shows "sint (scast x :: c_llong) = sint x"
  by (rule sint_up_scast) (simp add: is_up assms)

text \<open>
  C5. \<^verbatim>\<open>Time()\<close> returns, as a signed 64-bit integer, the number of seconds that the
  platform clock reads (the value of \<^verbatim>\<open>time(0)\<close>), unchanged by the conversion to
  \<^verbatim>\<open>long long\<close> when \<^verbatim>\<open>time_t\<close> has at most 64 bits, and it changes nothing.
\<close>

theorem Time_is_clock_reading:
  fixes w :: "('t::len, 'g) world"
  assumes "LENGTH('t) \<le> 64"
  shows "sint (fst (Time w)) = sint (now w) \<and> snd (Time w) = w"
proof
  have "fst (Time w) = scast (now w)"
    by (simp add: Time_def)
  then show "sint (fst (Time w)) = sint (now w)"
    by (simp add: sint_scast_llong [OF assms])
  show "snd (Time w) = w"
    by (simp add: Time_def)
qed

theorem Time_is_clock_reading_witness:
  "LENGTH(64) \<le> (64 :: nat)
   \<and> sint (fst (Time \<lparr>now = 1700000000 :: 64 word, gen = ()\<rparr>)) = 1700000000
   \<and> snd (Time \<lparr>now = 1700000000 :: 64 word, gen = ()\<rparr>) = \<lparr>now = 1700000000, gen = ()\<rparr>
   \<and> sint (fst (Time \<lparr>now = - 1 :: 32 word, gen = ()\<rparr>)) = - 1"
  using Time_is_clock_reading [of "\<lparr>now = 1700000000 :: 64 word, gen = ()\<rparr>"]
    Time_is_clock_reading [of "\<lparr>now = - 1 :: 32 word, gen = ()\<rparr>"]
  by simp

section \<open>The time does not run backwards\<close>

lemma exec_now: "now (snd (exec P c w)) = now w"
  by (cases c) (simp_all add: Time_def TimeCast_def SRand_def Rand_def RandMax_def case_prod_beta)

text \<open>
  Along a sequence of events with the clock never set backwards, the values of \<^verbatim>\<open>Time()\<close>
  are in order, and none is below the reading of the clock at the start.
\<close>

lemma time_values_run:
  fixes w :: "('t::len, 'g) world"
  assumes "LENGTH('t) \<le> 64"
  shows "clock_forward (now w) es \<Longrightarrow>
         sorted (map sint (time_values (fst (run P es w))))
         \<and> list_all (\<lambda>v. sint (now w) \<le> sint v) (time_values (fst (run P es w)))"
proof (induction es arbitrary: w)
  case Nil
  show ?case by simp
next
  case (Cons e es)
  show ?case
  proof (cases e)
    case (ClockSet t)
    with Cons.prems have le: "sint (now w) \<le> sint t"
      and fw: "clock_forward (now (w\<lparr>now := t\<rparr>)) es"
      by simp_all
    from Cons.IH [OF fw] le ClockSet show ?thesis
      by (auto simp: list_all_iff)
  next
    case (Call c)
    with Cons.prems have "clock_forward (now (snd (exec P c w))) es"
      by (simp add: exec_now)
    from Cons.IH [OF this] have ih:
      "sorted (map sint (time_values (fst (run P es (snd (exec P c w))))))"
      "list_all (\<lambda>v. sint (now w) \<le> sint v) (time_values (fst (run P es (snd (exec P c w)))))"
      by (simp_all add: exec_now)
    show ?thesis
    proof (cases c)
      case CallTime
      with Call ih show ?thesis
        by (simp add: case_prod_beta Time_def sint_scast_llong [OF assms] list_all_iff)
    qed (use Call ih in \<open>simp_all add: case_prod_beta\<close>)
  qed
qed

text \<open>
  C6. In any sequence of calls of the five operations and changes of the clock, where no
  change sets the clock backwards, every value that \<^verbatim>\<open>Time()\<close> returns is greater than or
  equal to the values it returned before (for a \<^verbatim>\<open>time_t\<close> of at most 64 bits).
\<close>

theorem Time_monotone:
  fixes w :: "('t::len, 'g) world"
  assumes "LENGTH('t) \<le> 64" and "clock_forward (now w) es"
  shows "sorted (map sint (time_values (fst (run P es w))))"
  using time_values_run [OF assms] by simp

theorem Time_monotone_witness:
  "LENGTH(64) \<le> (64 :: nat)
   \<and> clock_forward (1699999999 :: 64 word)
        [Call CallTime, ClockSet 1700000000, Call CallTime, Call CallRand, Call CallTime,
         ClockSet 1700000002, Call CallTime]
   \<and> time_values (fst (run lcg
        [Call CallTime, ClockSet 1700000000, Call CallTime, Call CallRand, Call CallTime,
         ClockSet 1700000002, Call CallTime] \<lparr>now = 1699999999 :: 64 word, gen = 7\<rparr>))
      = [1699999999, 1700000000, 1700000000, 1700000002]
   \<and> sorted (map sint [1699999999, 1700000000, 1700000000, 1700000002 :: c_llong])"
proof -
  let ?es = "[Call CallTime, ClockSet 1700000000, Call CallTime, Call CallRand, Call CallTime,
         ClockSet 1700000002, Call CallTime] :: 64 word event list"
  let ?w = "\<lparr>now = 1699999999 :: 64 word, gen = 7 :: 32 word\<rparr>"
  have a: "clock_forward (now ?w) ?es" by simp
  have b: "time_values (fst (run lcg ?es ?w)) = [1699999999, 1700000000, 1700000000, 1700000002]"
    by (simp add: Time_def Rand_def case_prod_beta)
  have c: "LENGTH(64) \<le> (64 :: nat)" by simp
  from Time_monotone [OF c a, of lcg] a b show ?thesis by simp
qed

section \<open>The generator\<close>

text \<open>The draws depend on the generator state alone, not on the clock.\<close>

lemma draws_gen_only:
  "gen w1 = gen w2 \<Longrightarrow>
   fst (draws P n w1) = fst (draws P n w2)
   \<and> gen (snd (draws P n w1)) = gen (snd (draws P n w2))"
proof (induction n arbitrary: w1 w2)
  case 0
  then show ?case by simp
next
  case (Suc n)
  obtain v g' where r: "rand P (gen w2) = (v, g')"
    by (cases "rand P (gen w2)")
  have "gen (w1\<lparr>gen := g'\<rparr>) = gen (w2\<lparr>gen := g'\<rparr>)"
    by simp
  from Suc.IH [OF this] Suc.prems r show ?case
    by (simp add: Rand_def case_prod_beta)
qed

lemma SRand_gen:
  "srand_reseeds P \<Longrightarrow> gen (snd (SRand P s w1)) = gen (snd (SRand P s w2))"
  by (auto simp: srand_reseeds_def SRand_def)

lemma srand_reseeds_lcg: "srand_reseeds lcg"
  by (simp add: srand_reseeds_def lcg_def lcg_srand_def)

text \<open>
  C1. On one platform, \<^verbatim>\<open>SRand(s)\<close> followed by \<open>N\<close> calls of \<^verbatim>\<open>Rand()\<close> returns the same
  \<open>N\<close> values in every run, whatever the clock and the generator state were before the
  seeding: the values are a function of the seed and the call order.
\<close>

theorem SRand_Rand_deterministic:
  assumes "srand_reseeds P"
  shows "fst (draws P N (snd (SRand P s w1))) = fst (draws P N (snd (SRand P s w2)))"
  using draws_gen_only [OF SRand_gen [OF assms]] by blast

theorem SRand_Rand_deterministic_witness:
  "srand_reseeds lcg
   \<and> fst (draws lcg 3 (snd (SRand lcg 42 \<lparr>now = 0 :: 64 word, gen = 1\<rparr>)))
       = [175, 400, 17869]
   \<and> fst (draws lcg 3 (snd (SRand lcg 42 \<lparr>now = 1700000000 :: 64 word, gen = 99\<rparr>)))
       = [175, 400, 17869]"
proof -
  have a: "fst (draws lcg 3 (snd (SRand lcg 42 \<lparr>now = 0 :: 64 word, gen = 1\<rparr>)))
      = [175, 400, 17869]"
    by code_simp
  show ?thesis
    using srand_reseeds_lcg a
      SRand_Rand_deterministic [OF srand_reseeds_lcg, of 3 42
        "\<lparr>now = 0 :: 64 word, gen = 1\<rparr>" "\<lparr>now = 1700000000 :: 64 word, gen = 99\<rparr>"]
    by simp
qed

text \<open>
  C9. \<^verbatim>\<open>SRand(s)\<close> called twice in a row leaves the same state as \<^verbatim>\<open>SRand(s)\<close> called
  once, so the draws that follow, and the states they leave, are the same.
\<close>

theorem SRand_idempotent:
  assumes "srand_reseeds P"
  shows "snd (SRand P s (snd (SRand P s w))) = snd (SRand P s w)
       \<and> draws P n (snd (SRand P s (snd (SRand P s w)))) = draws P n (snd (SRand P s w))"
proof -
  have "srand P s (srand P s (gen w)) = srand P s (gen w)"
    using assms unfolding srand_reseeds_def by blast
  then have "snd (SRand P s (snd (SRand P s w))) = snd (SRand P s w)"
    by (simp add: SRand_def)
  then show ?thesis by simp
qed

theorem SRand_idempotent_witness:
  "srand_reseeds lcg
   \<and> snd (SRand lcg 1 (snd (SRand lcg 1 \<lparr>now = 0 :: 64 word, gen = 7\<rparr>))) = \<lparr>now = 0, gen = 1\<rparr>
   \<and> snd (SRand lcg 1 \<lparr>now = 0 :: 64 word, gen = 7\<rparr>) = \<lparr>now = 0, gen = 1\<rparr>
   \<and> fst (draws lcg 2 (snd (SRand lcg 1 (snd (SRand lcg 1 \<lparr>now = 0 :: 64 word, gen = 7\<rparr>)))))
       = [41, 18467]
   \<and> fst (draws lcg 2 (snd (SRand lcg 1 \<lparr>now = 0 :: 64 word, gen = 7\<rparr>))) = [41, 18467]"
proof -
  have a: "snd (SRand lcg 1 \<lparr>now = 0 :: 64 word, gen = 7\<rparr>) = \<lparr>now = 0, gen = 1\<rparr>"
    by (simp add: SRand_def lcg_def lcg_srand_def)
  have b: "fst (draws lcg 2 \<lparr>now = 0 :: 64 word, gen = 1\<rparr>) = [41, 18467]"
    by code_simp
  show ?thesis
    using srand_reseeds_lcg a b
      SRand_idempotent [OF srand_reseeds_lcg, of 1 "\<lparr>now = 0 :: 64 word, gen = 7\<rparr>" 2]
    by simp
qed

section \<open>The operations that only read\<close>

text \<open>
  In a sequence of events without a seeding, the values of \<^verbatim>\<open>Rand()\<close> are those of as many
  draws in a row: the other calls and the clock do not count.
\<close>

lemma rand_values_run_gen:
  "list_all (\<lambda>e. \<not> is_SRand e) es \<Longrightarrow>
   rand_values (fst (run P es w)) = fst (draws P (length (filter is_Rand es)) w)
   \<and> gen (snd (run P es w)) = gen (snd (draws P (length (filter is_Rand es)) w))"
proof (induction es arbitrary: w)
  case Nil
  then show ?case by simp
next
  case (Cons e es)
  then have ih: "\<And>w. rand_values (fst (run P es w)) = fst (draws P (length (filter is_Rand es)) w)
      \<and> gen (snd (run P es w)) = gen (snd (draws P (length (filter is_Rand es)) w))"
    by simp
  show ?case
  proof (cases e)
    case (ClockSet t)
    have "gen (w\<lparr>now := t\<rparr>) = gen w"
      by simp
    from draws_gen_only [OF this, of P "length (filter is_Rand es)"] ih [of "w\<lparr>now := t\<rparr>"] ClockSet
    show ?thesis by simp
  next
    case (Call c)
    show ?thesis
    proof (cases c)
      case CallTime
      with Call ih [of w] show ?thesis by (simp add: Time_def case_prod_beta)
    next
      case CallTimeCast
      with Call ih [of w] show ?thesis by (simp add: TimeCast_def case_prod_beta)
    next
      case (CallSRand s)
      with Call Cons.prems show ?thesis by simp
    next
      case CallRand
      with Call ih [of "snd (Rand P w)"] show ?thesis by (simp add: case_prod_beta)
    next
      case CallRandMax
      with Call ih [of w] show ?thesis by (simp add: RandMax_def case_prod_beta)
    qed
  qed
qed

text \<open>
  C8. \<^verbatim>\<open>Time()\<close>, \<^verbatim>\<open>TimeCast()\<close> and \<^verbatim>\<open>RandMax()\<close> leave the generator state as it is. After
  \<^verbatim>\<open>SRand(s)\<close>, in any sequence of calls of \<^verbatim>\<open>Rand()\<close>, \<^verbatim>\<open>Time()\<close>, \<^verbatim>\<open>TimeCast()\<close> and
  \<^verbatim>\<open>RandMax()\<close> and of changes of the clock, the calls of \<^verbatim>\<open>Rand()\<close> return the values that
  as many calls of \<^verbatim>\<open>Rand()\<close> in a row return after \<^verbatim>\<open>SRand(s)\<close>.
\<close>

theorem observers_leave_generator:
  assumes "list_all (\<lambda>e. \<not> is_SRand e) es"
  shows "gen (snd (Time w)) = gen w \<and> gen (snd (TimeCast w)) = gen w
       \<and> gen (snd (RandMax P w)) = gen w
       \<and> rand_values (fst (run P (Call (CallSRand s) # es) w))
           = fst (draws P (length (filter is_Rand es)) (snd (SRand P s w)))"
  using rand_values_run_gen [OF assms, of P "snd (SRand P s w)"]
  by (simp add: Time_def TimeCast_def RandMax_def case_prod_beta)

theorem observers_leave_generator_witness:
  "list_all (\<lambda>e. \<not> is_SRand e)
     [Call CallTime, Call CallRand, ClockSet (1700000001 :: 64 word), Call CallRandMax,
      Call CallTimeCast, Call CallRand]
   \<and> rand_values (fst (run lcg (Call (CallSRand 1) #
       [Call CallTime, Call CallRand, ClockSet 1700000001, Call CallRandMax,
        Call CallTimeCast, Call CallRand]) \<lparr>now = 1700000000 :: 64 word, gen = 7\<rparr>)) = [41, 18467]
   \<and> fst (draws lcg 2 (snd (SRand lcg 1 \<lparr>now = 1700000000 :: 64 word, gen = 7\<rparr>))) = [41, 18467]
   \<and> gen (snd (Time \<lparr>now = 1700000000 :: 64 word, gen = 7 :: 32 word\<rparr>)) = 7
   \<and> gen (snd (TimeCast \<lparr>now = 1700000000 :: 64 word, gen = 7 :: 32 word\<rparr>)) = 7
   \<and> gen (snd (RandMax lcg \<lparr>now = 1700000000 :: 64 word, gen = 7\<rparr>)) = 7"
proof -
  let ?es = "[Call CallTime, Call CallRand, ClockSet (1700000001 :: 64 word), Call CallRandMax,
      Call CallTimeCast, Call CallRand]"
  let ?w = "\<lparr>now = 1700000000 :: 64 word, gen = 7 :: 32 word\<rparr>"
  have a: "list_all (\<lambda>e. \<not> is_SRand e) ?es"
    by simp
  have b: "fst (draws lcg 2 (snd (SRand lcg 1 ?w))) = [41, 18467]"
    by code_simp
  have c: "length (filter is_Rand ?es) = 2"
    by simp
  have d: "gen (snd (Time ?w)) = 7" "gen (snd (TimeCast ?w)) = 7" "gen (snd (RandMax lcg ?w)) = 7"
    by (simp_all add: Time_def TimeCast_def RandMax_def)
  have "rand_values (fst (run lcg (Call (CallSRand 1) # ?es) ?w))
      = fst (draws lcg 2 (snd (SRand lcg 1 ?w)))"
    using observers_leave_generator [OF a, of ?w lcg 1] by (simp only: c)
  with b have "rand_values (fst (run lcg (Call (CallSRand 1) # ?es) ?w)) = [41, 18467]"
    by (simp only:)
  with a b d show ?thesis by blast
qed

section \<open>The range of the draws\<close>

lemma sint_word_of_int_int32:
  "- (2 ^ 31) \<le> k \<Longrightarrow> k \<le> INT_MAX \<Longrightarrow> sint (word_of_int k :: c_int) = k"
  by (simp add: sint_sbintrunc' INT_MAX_def signed_take_bit_int_eq_self)

lemma sint_c_int_le_INT_MAX: "sint (v :: c_int) \<le> INT_MAX"
  using sint_lt [of v] by (simp add: INT_MAX_def)

text \<open>\<^verbatim>\<open>RAND_MAX\<close> is a result of \<^verbatim>\<open>rand\<close>, so it is a value of \<^verbatim>\<open>int\<close> and not negative.\<close>

lemma RAND_MAX_bounds:
  assumes "rand_in_range P"
  shows "0 \<le> RAND_MAX P" and "RAND_MAX P \<le> INT_MAX"
proof -
  from assms obtain g where g: "sint (fst (rand P g)) = RAND_MAX P"
    unfolding rand_in_range_def by blast
  from assms have "0 \<le> sint (fst (rand P g))"
    unfolding rand_in_range_def by blast
  with g show "0 \<le> RAND_MAX P"
    by simp
  from g sint_c_int_le_INT_MAX [of "fst (rand P g)"] show "RAND_MAX P \<le> INT_MAX"
    by simp
qed

text \<open>So the conversion of \<^verbatim>\<open>RAND_MAX\<close> to the \<^verbatim>\<open>int\<close> that \<^verbatim>\<open>RandMax()\<close> returns keeps its value.\<close>

lemma sint_RandMax:
  assumes "rand_in_range P"
  shows "sint (fst (RandMax P w)) = RAND_MAX P"
  using RAND_MAX_bounds [OF assms] by (simp add: RandMax_def sint_word_of_int_int32)

lemma Rand_value_in_range:
  assumes "rand_in_range P"
  shows "0 \<le> sint (fst (Rand P w)) \<and> sint (fst (Rand P w)) \<le> RAND_MAX P"
  using assms unfolding rand_in_range_def by (simp add: Rand_def case_prod_beta)

lemma draws_in_range:
  assumes "rand_in_range P"
  shows "list_all (\<lambda>v. 0 \<le> sint v \<and> sint v \<le> RAND_MAX P) (fst (draws P n w))"
proof (induction n arbitrary: w)
  case 0
  show ?case by simp
next
  case (Suc n)
  from Suc [of "snd (Rand P w)"] Rand_value_in_range [OF assms, of w]
  show ?case by (simp add: case_prod_beta)
qed

text \<open>The sample platform keeps the promise: its results have 15 bits.\<close>

lemma lcg_rand_value:
  "sint (fst (lcg_rand g)) = uint (drop_bit 16 (g * 214013 + 2531011) AND 0x7FFF :: 32 word)"
proof -
  let ?x = "drop_bit 16 (g * 214013 + 2531011) AND 0x7FFF :: 32 word"
  have "?x \<le> 0x7FFF"
    by (rule word_and_le1)
  then have le: "uint ?x < 2 ^ 31"
    by (simp add: word_le_def)
  have "(- (2 ^ 31) :: int) \<le> 0"
    by simp
  also have "0 \<le> uint ?x"
    by simp
  finally have "signed_take_bit 31 (uint ?x) = uint ?x"
    using le by (rule signed_take_bit_int_eq_self)
  then show ?thesis
    by (simp add: lcg_rand_def Let_def sint_uint)
qed

lemma rand_in_range_lcg: "rand_in_range lcg"
proof -
  have a: "0 \<le> sint (fst (lcg_rand g)) \<and> sint (fst (lcg_rand g)) \<le> 32767" for g
  proof -
    have "drop_bit 16 (g * 214013 + 2531011) AND 0x7FFF \<le> (0x7FFF :: 32 word)"
      by (rule word_and_le1)
    then show ?thesis
      by (simp add: lcg_rand_value word_le_def)
  qed
  have b: "sint (fst (lcg_rand 4028364353)) = 32767"
    by (simp add: lcg_rand_def)
  show ?thesis
    unfolding rand_in_range_def using a b by (auto simp: lcg_def)
qed

text \<open>
  C3. For every seed \<open>s\<close>, every value \<open>v\<close> that a call of \<^verbatim>\<open>Rand()\<close> returns after
  \<^verbatim>\<open>SRand(s)\<close> is a signed integer with \<open>0 \<le> v\<close> and \<open>v \<le> RandMax()\<close>, on a platform whose
  \<^verbatim>\<open>rand\<close> stays between 0 and \<^verbatim>\<open>RAND_MAX\<close>; so it is for the first two draws.
\<close>

theorem Rand_within_RandMax:
  assumes "rand_in_range P"
  shows "list_all (\<lambda>v. 0 \<le> sint v \<and> sint v \<le> sint (fst (RandMax P w')))
           (fst (draws P n (snd (SRand P s w))))"
  using draws_in_range [OF assms, of n "snd (SRand P s w)"]
  by (simp add: sint_RandMax [OF assms])

theorem Rand_within_RandMax_witness:
  "rand_in_range lcg
   \<and> list_all (\<lambda>v. 0 \<le> sint v \<and> sint v \<le> sint (fst (RandMax lcg \<lparr>now = 0 :: 64 word, gen = 7\<rparr>)))
        (fst (draws lcg 2 (snd (SRand lcg 1 \<lparr>now = 0 :: 64 word, gen = 7\<rparr>))))
   \<and> fst (draws lcg 2 (snd (SRand lcg 1 \<lparr>now = 0 :: 64 word, gen = 7\<rparr>))) = [41, 18467]
   \<and> fst (RandMax lcg \<lparr>now = 0 :: 64 word, gen = 7\<rparr>) = 32767"
proof -
  have a: "fst (draws lcg 2 (snd (SRand lcg 1 \<lparr>now = 0 :: 64 word, gen = 7\<rparr>))) = [41, 18467]"
    by code_simp
  have b: "fst (RandMax lcg \<lparr>now = 0 :: 64 word, gen = 7\<rparr>) = 32767"
    by (simp add: RandMax_def lcg_def)
  show ?thesis
    using rand_in_range_lcg a b
      Rand_within_RandMax [OF rand_in_range_lcg, of "\<lparr>now = 0 :: 64 word, gen = 7\<rparr>" 2 1
        "\<lparr>now = 0 :: 64 word, gen = 7\<rparr>"]
    by simp
qed

text \<open>
  C4. \<^verbatim>\<open>RandMax()\<close> returns the same value before and after any sequence of calls of
  the five operations and changes of the clock, it changes nothing, and the value is not
  negative.
\<close>

theorem RandMax_constant:
  assumes "rand_in_range P"
  shows "fst (RandMax P (snd (run P es w))) = fst (RandMax P w)
       \<and> snd (RandMax P w) = w
       \<and> 0 \<le> sint (fst (RandMax P w))"
  using RAND_MAX_bounds(1) [OF assms] sint_RandMax [OF assms, of w]
  by (simp add: RandMax_def)

theorem RandMax_constant_witness:
  "rand_in_range lcg
   \<and> fst (RandMax lcg (snd (run lcg [Call (CallSRand 5), Call CallRand, Call CallTime, ClockSet 3,
        Call CallTimeCast, Call CallRandMax] \<lparr>now = 0 :: 64 word, gen = 7\<rparr>))) = 32767
   \<and> fst (RandMax lcg \<lparr>now = 0 :: 64 word, gen = 7\<rparr>) = 32767
   \<and> snd (RandMax lcg \<lparr>now = 0 :: 64 word, gen = 7\<rparr>) = \<lparr>now = 0, gen = 7\<rparr>
   \<and> 0 \<le> sint (fst (RandMax lcg \<lparr>now = 0 :: 64 word, gen = 7\<rparr>))"
proof -
  have a: "fst (RandMax lcg \<lparr>now = 0 :: 64 word, gen = 7\<rparr>) = 32767"
    by (simp add: RandMax_def lcg_def)
  from RandMax_constant [OF rand_in_range_lcg,
      of "[Call (CallSRand 5), Call CallRand, Call CallTime, ClockSet 3,
        Call CallTimeCast, Call CallRandMax]" "\<lparr>now = 0 :: 64 word, gen = 7\<rparr>"]
    a rand_in_range_lcg
  show ?thesis by simp
qed






end
